theory Spec2Isabelle
  imports Complex_Main
begin

section \<open>Data model\<close>

text \<open>
  The message on the joint-state channel (\<open>sensor_msgs::JointState\<close>): a time stamp, the
  joint names and the joint positions. \<open>position\<close> is a \<open>std::vector<double>\<close>, so its
  length is not fixed by the type. A \<open>double\<close> or \<open>float\<close> value is the real number it
  stands for. The publisher's arithmetic is rounded as the formats prescribe (division in
  \<open>double\<close>, narrowing to \<open>float\<close>); the subscriber's arithmetic in \<open>eePos\<close> is taken
  exact.
\<close>

record JointState =
  stamp :: nat
  name :: "string list"
  position :: "real list"

text \<open>The data members of class \<open>SensorMeasurementData\<close>, in the order of their declaration
  (the subscriber handle \<open>sub_\<close> carries no data and is left out).\<close>

record SensorMeasurementData =
  position_joint1 :: real
  position_joint2 :: real
  theta1_offset :: real
  theta2_offset :: real
  link_1 :: real
  link_2 :: real
  my_output :: string
  output_data_yaml :: string
  data_count :: int
  data_num_max :: int

text \<open>
  Everything the callback touches outside its object: the file system (path to content),
  the values printed by \<open>ROS_INFO\<close>, the number of \<open>ROS_ERROR\<close> reports and the number of
  calls of \<open>ros::shutdown()\<close>.
\<close>

record world =
  files :: "string \<rightharpoonup> string"
  ros_info :: "real list"
  ros_error :: nat
  shutdown_requests :: nat

text \<open>
  Undefined behaviour of the C++ program is a fault value: reading a vector element past
  its end, and overflow of the signed 32-bit counter \<open>data_count_\<close>.
\<close>

datatype fault = OutOfBounds | SignedOverflow

definition INT_MAX :: int where
  "INT_MAX = 2147483647"

definition nl :: char where
  "nl = CHR 0x0A"

text \<open>The launch parameters read by the constructor through \<open>getParam\<close>.\<close>

record launch_params =
  data_point_count :: int
  param_link_1 :: real
  param_link_2 :: real
  param_Theta1_offset :: real
  param_Theta2_offset :: real

section \<open>The publisher node\<close>

text \<open>
  Rounding of IEEE 754 binary formats, to nearest with ties to even. \<open>round_even\<close> rounds
  a real number to an integer. \<open>round_to p\<close> rounds to a significand of \<open>p\<close> bits: the
  unit in the last place of \<open>x\<close> is \<open>2\<close> to the power \<open>e - p + 1\<close>, where \<open>2\<close> to the
  power \<open>e\<close> is the largest power of two not above the magnitude of \<open>x\<close>. A \<open>double\<close> has
  53 bits, a \<open>float\<close> 24. The limits of the exponent are left out: the numbers rounded
  here are zero or lie between 0.01 and 3.15, far from the ends of either format.
\<close>

definition round_even :: "real \<Rightarrow> int" where
  "round_even x =
     (let f = \<lfloor>x\<rfloor>; d = x - of_int f
      in if d < 1 / 2 then f
         else if 1 / 2 < d then f + 1
         else if even f then f else f + 1)"

definition round_to :: "nat \<Rightarrow> real \<Rightarrow> real" where
  "round_to p x =
     (if x = 0 then 0
      else
        let e = \<lfloor>log 2 \<bar>x\<bar>\<rfloor>;
            ulp = 2 powr (of_int e - real p + 1)
        in of_int (round_even (x / ulp)) * ulp)"

definition to_double :: "real \<Rightarrow> real" where
  "to_double x = round_to 53 x"

definition to_float :: "real \<Rightarrow> real" where
  "to_float x = round_to 24 x"

text \<open>
  One joint position of the loop body of \<open>main\<close>:
  \<open>float joint1_pos = ((rand() % 315) / 100.0);\<close>
  where \<open>rand()\<close> returns a value between 0 and \<open>RAND_MAX\<close>, hence the natural number.
  The remainder is an \<open>int\<close> below 315 and converts to \<open>double\<close> exactly; the division by
  \<open>100.0\<close> is a \<open>double\<close> division; the initialisation of the \<open>float\<close> narrows the quotient.
\<close>

definition joint_pos :: "nat \<Rightarrow> real" where
  "joint_pos r = to_float (to_double (real (r mod 315) / 100.0))"

text \<open>One iteration of the publishing loop: the time stamp, two draws of \<open>rand()\<close>, and the
  message that is published. The two \<open>float\<close> values go into the message's vector of
  \<open>double\<close>, which holds every \<open>float\<close> exactly.\<close>

definition main_tick :: "nat \<Rightarrow> nat \<Rightarrow> nat \<Rightarrow> JointState" where
  "main_tick now r1 r2 =
     (let joint1_pos = joint_pos r1;
          joint2_pos = joint_pos r2
      in \<lparr>stamp = now, name = [''joint1'', ''joint2''], position = [joint1_pos, joint2_pos]\<rparr>)"

section \<open>The subscriber: class \<open>SensorMeasurementData\<close>\<close>

text \<open>
  The constructor. \<open>data_count_\<close> is set to zero, the parameters are copied, and the output
  path is the package path followed by \<open>/Output_yaml/<date>_output.yaml\<close>. The two joint
  positions are not initialised by the constructor: their indeterminate values are the
  arguments \<open>u1\<close> and \<open>u2\<close>.
\<close>

definition construct ::
  "launch_params \<Rightarrow> string \<Rightarrow> string \<Rightarrow> real \<Rightarrow> real \<Rightarrow> SensorMeasurementData" where
  "construct n package_path date_holder u1 u2 =
     \<lparr>position_joint1 = u1,
      position_joint2 = u2,
      theta1_offset = param_Theta1_offset n,
      theta2_offset = param_Theta2_offset n,
      link_1 = param_link_1 n,
      link_2 = param_link_2 n,
      my_output = (package_path @ ''/Output_yaml'') @ ''/'' @ date_holder @ ''_output.yaml'',
      output_data_yaml = '''',
      data_count = 0,
      data_num_max = data_point_count n\<rparr>"

text \<open>The world at start-up: some file system, nothing logged, no shutdown requested.\<close>

definition startup :: "(string \<rightharpoonup> string) \<Rightarrow> world" where
  "startup fs = \<lparr>files = fs, ros_info = [], ros_error = 0, shutdown_requests = 0\<rparr>"

text \<open>\<open>eePos\<close>: the position of the end effector.\<close>

definition eePos :: "SensorMeasurementData \<Rightarrow> real \<Rightarrow> real \<Rightarrow> real \<times> real" where
  "eePos s joint_1 joint_2 =
     (let Theta1 = joint_1 - (theta1_offset s * pi / 180);
          Theta2 = joint_2 - (theta2_offset s * pi / 180)
      in ((link_1 s * cos (Theta1 * pi / 180)) + (link_2 s * cos ((Theta1 + Theta2) * pi / 180)),
          (link_1 s * sin (Theta1 * pi / 180)) + (link_2 s * sin ((Theta1 + Theta2) * pi / 180))))"

text \<open>
  The text the YAML emitter produces. The emitter belongs to the yaml-cpp library; the
  formatting of a \<open>double\<close> is its business and is the parameter \<open>fmt\<close>. A flow sequence
  is written \<open>[a, b]\<close>; a block mapping that is an entry of a block sequence is written
  with \<open>- \<close> before its first key and two spaces before each further key.
\<close>

fun flow_items :: "string list \<Rightarrow> string" where
  "flow_items [] = []"
| "flow_items [x] = x"
| "flow_items (x # y # ys) = x @ '', '' @ flow_items (y # ys)"

definition flow_seq :: "(real \<Rightarrow> string) \<Rightarrow> real list \<Rightarrow> string" where
  "flow_seq fmt xs = ''['' @ flow_items (map fmt xs) @ '']''"

definition first_pair :: "string \<Rightarrow> string \<Rightarrow> string" where
  "first_pair k v = ''- '' @ k @ '': '' @ v"

definition next_pair :: "string \<Rightarrow> string \<Rightarrow> string" where
  "next_pair k v = ''  '' @ k @ '': '' @ v"

text \<open>
  \<open>saveJointAnglesEepos\<close>: a fresh emitter writes a one-entry sequence holding a mapping
  with the keys \<open>joint angles\<close> and \<open>end effector position\<close>, each with a two-element flow
  sequence; a line feed is appended to the emitter's text.
\<close>

definition saveJointAnglesEepos ::
  "(real \<Rightarrow> string) \<Rightarrow> SensorMeasurementData \<Rightarrow> real \<times> real \<Rightarrow> string" where
  "saveJointAnglesEepos fmt s end_effector_position =
     (let d_output =
            first_pair ''joint angles'' (flow_seq fmt [position_joint1 s, position_joint2 s])
            @ [nl] @
            next_pair ''end effector position''
              (flow_seq fmt [fst end_effector_position, snd end_effector_position])
      in d_output @ [nl])"

text \<open>
  \<open>jointStatesCallback\<close>, statement by statement. \<open>open_ok\<close> says whether opening the
  output file succeeds this time. Opening truncates the file; a stream that failed to open
  ignores what is written to it.
\<close>

definition jointStatesCallback ::
  "(real \<Rightarrow> string) \<Rightarrow> bool \<Rightarrow> JointState \<Rightarrow> SensorMeasurementData \<times> world
     \<Rightarrow> fault + SensorMeasurementData \<times> world" where
  "jointStatesCallback fmt open_ok msg sw =
     (case sw of (s, w) \<Rightarrow>
        if length (position msg) < 1 then Inl OutOfBounds
        else
          let w1 = w\<lparr>ros_info := ros_info w @ [position msg ! 0]\<rparr>;
              s1 = s\<lparr>position_joint1 := position msg ! 0\<rparr>
          in if length (position msg) < 2 then Inl OutOfBounds
             else
               let s2 = s1\<lparr>position_joint2 := position msg ! 1\<rparr>;
                   ee_position = eePos s2 (position_joint1 s2) (position_joint2 s2);
                   w2 = (if open_ok then w1\<lparr>files := (files w1)(my_output s2 \<mapsto> [])\<rparr>
                         else w1\<lparr>ros_error := ros_error w1 + 1\<rparr>);
                   s3 = s2\<lparr>output_data_yaml :=
                            output_data_yaml s2 @ saveJointAnglesEepos fmt s2 ee_position\<rparr>
               in if data_count s3 = INT_MAX then Inl SignedOverflow
                  else
                    let s4 = s3\<lparr>data_count := data_count s3 + 1\<rparr>;
                        stream = output_data_yaml s4 @ [nl];
                        w3 = (if open_ok then w2\<lparr>files := (files w2)(my_output s4 \<mapsto> stream)\<rparr>
                              else w2);
                        w4 = (if data_count s4 = data_num_max s4
                              then w3\<lparr>shutdown_requests := shutdown_requests w3 + 1\<rparr>
                              else w3)
                    in Inr (s4, w4))"

text \<open>
  Samples handed to the callback one after the other, in order, each with the outcome of
  opening the file at that moment. A fault ends the run.
\<close>

fun deliver ::
  "(real \<Rightarrow> string) \<Rightarrow> (bool \<times> JointState) list \<Rightarrow> SensorMeasurementData \<times> world
     \<Rightarrow> fault + SensorMeasurementData \<times> world" where
  "deliver fmt [] sw = Inr sw"
| "deliver fmt (m # ms) sw =
     (case jointStatesCallback fmt (fst m) (snd m) sw of
        Inl e \<Rightarrow> Inl e
      | Inr sw' \<Rightarrow> deliver fmt ms sw')"

text \<open>Observations of the outcome of a run.\<close>

definition received_count :: "fault + SensorMeasurementData \<times> world \<Rightarrow> int option" where
  "received_count r = (case r of Inl e \<Rightarrow> None | Inr sw \<Rightarrow> Some (data_count (fst sw)))"

definition shutdowns_issued :: "fault + SensorMeasurementData \<times> world \<Rightarrow> nat option" where
  "shutdowns_issued r = (case r of Inl e \<Rightarrow> None | Inr sw \<Rightarrow> Some (shutdown_requests (snd sw)))"

definition well_formed :: "(bool \<times> JointState) list \<Rightarrow> bool" where
  "well_formed ms = list_all (\<lambda>m. 2 \<le> length (position (snd m))) ms"

text \<open>What a successful call leaves behind, written out.\<close>

definition after_sample ::
  "(real \<Rightarrow> string) \<Rightarrow> JointState \<Rightarrow> SensorMeasurementData \<Rightarrow> SensorMeasurementData" where
  "after_sample fmt msg s =
     (let t = s\<lparr>position_joint1 := position msg ! 0, position_joint2 := position msg ! 1\<rparr>
      in t\<lparr>output_data_yaml :=
             output_data_yaml s @ saveJointAnglesEepos fmt t (eePos s (position msg ! 0) (position msg ! 1)),
           data_count := data_count s + 1\<rparr>)"

section \<open>Reading the output file back\<close>

text \<open>
  The reader for the part of YAML the output file is written in: a block sequence whose
  entries are block mappings, each value a flow sequence of numeric scalars. The text is
  cut into lines; blank lines are skipped; a line starting with \<open>- \<close> opens an entry
  and carries its first pair; the lines after it that are indented by two spaces carry
  its further pairs. A pair is \<open>key: [item, item, ...]\<close>, and an item is a non-empty word
  over the characters of a printed number.
\<close>

fun split_at :: "char \<Rightarrow> string \<Rightarrow> string list" where
  "split_at d [] = [[]]"
| "split_at d (c # cs) =
     (if c = d then [] # split_at d cs
      else (case split_at d cs of [] \<Rightarrow> [[c]] | l # ls \<Rightarrow> (c # l) # ls))"

fun strip_prefix :: "string \<Rightarrow> string \<Rightarrow> string option" where
  "strip_prefix [] s = Some s"
| "strip_prefix (p # ps) [] = None"
| "strip_prefix (p # ps) (c # cs) = (if p = c then strip_prefix ps cs else None)"

definition number_char :: "char \<Rightarrow> bool" where
  "number_char c \<longleftrightarrow> c \<in> set ''0123456789.+-e''"

definition numeric :: "string \<Rightarrow> bool" where
  "numeric s \<longleftrightarrow> s \<noteq> [] \<and> list_all number_char s"

definition parse_flow_seq :: "string \<Rightarrow> string list option" where
  "parse_flow_seq v =
     (case v of
        [] \<Rightarrow> None
      | c # cs \<Rightarrow>
          if c \<noteq> CHR ''['' \<or> cs = [] \<or> last cs \<noteq> CHR '']'' then None
          else (case split_at CHR '','' (butlast cs) of
                  [] \<Rightarrow> None
                | x # xs \<Rightarrow>
                    (case those (map (strip_prefix '' '') xs) of
                       None \<Rightarrow> None
                     | Some ys \<Rightarrow> if list_all numeric (x # ys) then Some (x # ys) else None)))"

definition parse_pair :: "string \<Rightarrow> (string \<times> string list) option" where
  "parse_pair l =
     (let k = takeWhile (\<lambda>c. c \<noteq> CHR '':'') l;
          r = dropWhile (\<lambda>c. c \<noteq> CHR '':'') l
      in if k = [] then None
         else (case strip_prefix '': '' r of
                 None \<Rightarrow> None
               | Some v \<Rightarrow> map_option (Pair k) (parse_flow_seq v)))"

definition continuation :: "string \<Rightarrow> bool" where
  "continuation l \<longleftrightarrow> strip_prefix ''  '' l \<noteq> None"

function parse_entries :: "string list \<Rightarrow> (string \<times> string list) list list option" where
  "parse_entries [] = Some []"
| "parse_entries (l # ls) =
     (if l = [] then parse_entries ls
      else (case strip_prefix ''- '' l of
              None \<Rightarrow> None
            | Some first \<Rightarrow>
                (case those (map parse_pair (first # map (drop 2) (takeWhile continuation ls))) of
                   None \<Rightarrow> None
                 | Some m \<Rightarrow>
                     (case parse_entries (dropWhile continuation ls) of
                        None \<Rightarrow> None
                      | Some ms \<Rightarrow> Some (m # ms)))))"
  by pat_completeness auto
termination
  by (relation "measure length") (auto simp: less_Suc_eq_le length_dropWhile_le)

definition parse_yaml :: "string \<Rightarrow> (string \<times> string list) list list option" where
  "parse_yaml txt = parse_entries (split_at nl txt)"

text \<open>
  The text of one record as the callback appends it, its two lines, and the mapping the
  reader is expected to return for it: the keys in the order written, each with the two
  formatted numbers.
\<close>

definition record_text :: "(real \<Rightarrow> string) \<Rightarrow> SensorMeasurementData \<Rightarrow> bool \<times> JointState \<Rightarrow> string" where
  "record_text fmt s m =
     saveJointAnglesEepos fmt
       (s\<lparr>position_joint1 := position (snd m) ! 0, position_joint2 := position (snd m) ! 1\<rparr>)
       (eePos s (position (snd m) ! 0) (position (snd m) ! 1))"

definition expected_mapping ::
  "(real \<Rightarrow> string) \<Rightarrow> SensorMeasurementData \<Rightarrow> bool \<times> JointState \<Rightarrow> (string \<times> string list) list" where
  "expected_mapping fmt s m =
     (let p0 = position (snd m) ! 0; p1 = position (snd m) ! 1; ee = eePos s p0 p1
      in [(''joint angles'', [fmt p0, fmt p1]),
          (''end effector position'', [fmt (fst ee), fmt (snd ee)])])"

definition line1 :: "(real \<Rightarrow> string) \<Rightarrow> real \<Rightarrow> real \<Rightarrow> string" where
  "line1 fmt a b = first_pair ''joint angles'' (flow_seq fmt [a, b])"

definition line2 :: "(real \<Rightarrow> string) \<Rightarrow> real \<Rightarrow> real \<Rightarrow> string" where
  "line2 fmt a b = next_pair ''end effector position'' (flow_seq fmt [a, b])"

definition record_lines :: "(real \<Rightarrow> string) \<Rightarrow> SensorMeasurementData \<Rightarrow> bool \<times> JointState \<Rightarrow> string list" where
  "record_lines fmt s m =
     (let p0 = position (snd m) ! 0; p1 = position (snd m) ! 1; ee = eePos s p0 p1
      in [line1 fmt p0 p1, line2 fmt (fst ee) (snd ee)])"

text \<open>Inputs of the worked examples: a formatter, a well-formed sample, launch parameters
  of a unit arm with a given target, and the logger built from them.\<close>

definition fmt01 :: "real \<Rightarrow> string" where
  "fmt01 x = (if x = 0 then ''0'' else ''1'')"

definition sample00 :: JointState where
  "sample00 = \<lparr>stamp = 0, name = [''joint1'', ''joint2''], position = [0, 0]\<rparr>"

definition unit_arm :: "int \<Rightarrow> launch_params" where
  "unit_arm k = \<lparr>data_point_count = k, param_link_1 = 1, param_link_2 = 1,
                 param_Theta1_offset = 0, param_Theta2_offset = 0\<rparr>"

definition logger0 :: "int \<Rightarrow> SensorMeasurementData" where
  "logger0 k = construct (unit_arm k) ''/pkg'' ''01_01_2024_00:00:00'' 0 0"

section \<open>Basic facts about one call\<close>

lemma eePos_frame:
  "eePos (s\<lparr>position_joint1 := a, position_joint2 := b\<rparr>) x y = eePos s x y"
  by (simp add: eePos_def)

lemma callback_state:
  assumes "2 \<le> length (position msg)" and "data_count s \<noteq> INT_MAX"
  shows "\<exists>w'. jointStatesCallback fmt ok msg (s, w) = Inr (after_sample fmt msg s, w')
            \<and> ros_error w' = ros_error w + (if ok then 0 else 1)
            \<and> shutdown_requests w' =
                shutdown_requests w + (if data_count s + 1 = data_num_max s then 1 else 0)
            \<and> files w' =
                (if ok then (files w)(my_output s \<mapsto> output_data_yaml (after_sample fmt msg s) @ [nl])
                 else files w)"
proof -
  from assms(1) have "position msg \<noteq> []" by auto
  with assms show ?thesis
    by (simp add: jointStatesCallback_def after_sample_def Let_def eePos_frame)
qed

lemma after_sample_fields [simp]:
  "data_count (after_sample fmt msg s) = data_count s + 1"
  "data_num_max (after_sample fmt msg s) = data_num_max s"
  "my_output (after_sample fmt msg s) = my_output s"
  "theta1_offset (after_sample fmt msg s) = theta1_offset s"
  "theta2_offset (after_sample fmt msg s) = theta2_offset s"
  "link_1 (after_sample fmt msg s) = link_1 s"
  "link_2 (after_sample fmt msg s) = link_2 s"
  "position_joint1 (after_sample fmt msg s) = position msg ! 0"
  "position_joint2 (after_sample fmt msg s) = position msg ! 1"
  by (simp_all add: after_sample_def Let_def)

lemma well_formed_Cons [simp]:
  "well_formed (m # ms) \<longleftrightarrow> 2 \<le> length (position (snd m)) \<and> well_formed ms"
  by (simp add: well_formed_def)

lemma well_formed_Nil [simp]: "well_formed []"
  by (simp add: well_formed_def)

section \<open>Runs\<close>

text \<open>
  A run of well-formed samples that keeps the counter inside the range of \<open>int\<close> never
  faults. It counts every sample, keeps target and path, and requests shutdown once if the
  counter passes through the target during the run and not at all otherwise.
\<close>

lemma deliver_run:
  assumes "well_formed ms" and "data_count s + int (length ms) \<le> INT_MAX"
  shows "\<exists>s' w'. deliver fmt ms (s, w) = Inr (s', w')
            \<and> data_count s' = data_count s + int (length ms)
            \<and> data_num_max s' = data_num_max s
            \<and> my_output s' = my_output s
            \<and> shutdown_requests w' = shutdown_requests w +
                  (if data_count s < data_num_max s
                      \<and> data_num_max s \<le> data_count s + int (length ms) then 1 else 0)"
  using assms
proof (induction ms arbitrary: s w)
  case Nil
  then show ?case by simp
next
  case (Cons m ms)
  from Cons.prems have wf: "2 \<le> length (position (snd m))" and wfs: "well_formed ms"
    by simp_all
  from Cons.prems have no_ovf: "data_count s \<noteq> INT_MAX" by auto
  from callback_state [OF wf no_ovf, of fmt "fst m" w]
  obtain w1 where
    step: "jointStatesCallback fmt (fst m) (snd m) (s, w) = Inr (after_sample fmt (snd m) s, w1)"
    and sd: "shutdown_requests w1 =
               shutdown_requests w + (if data_count s + 1 = data_num_max s then 1 else 0)"
    by blast
  let ?s1 = "after_sample fmt (snd m) s"
  from Cons.prems have "data_count ?s1 + int (length ms) \<le> INT_MAX" by simp
  from Cons.IH [OF wfs this, of w1]
  obtain s' w' where
    run: "deliver fmt ms (?s1, w1) = Inr (s', w')"
    and c: "data_count s' = data_count ?s1 + int (length ms)"
    and t: "data_num_max s' = data_num_max ?s1"
    and p: "my_output s' = my_output ?s1"
    and r: "shutdown_requests w' = shutdown_requests w1 +
              (if data_count ?s1 < data_num_max ?s1
                  \<and> data_num_max ?s1 \<le> data_count ?s1 + int (length ms) then 1 else 0)"
    by blast
  have "deliver fmt (m # ms) (s, w) = Inr (s', w')"
    using step run by simp
  moreover have "data_count s' = data_count s + int (length (m # ms))"
    using c by simp
  moreover have "data_num_max s' = data_num_max s" "my_output s' = my_output s"
    using t p by simp_all
  moreover have "shutdown_requests w' = shutdown_requests w +
      (if data_count s < data_num_max s
          \<and> data_num_max s \<le> data_count s + int (length (m # ms)) then 1 else 0)"
    using r sd by auto
  ultimately show ?case by blast
qed

lemma construct_fields [simp]:
  "data_count (construct n pp dh u1 u2) = 0"
  "data_num_max (construct n pp dh u1 u2) = data_point_count n"
  "output_data_yaml (construct n pp dh u1 u2) = []"
  by (simp_all add: construct_def)

lemma startup_fields [simp]:
  "shutdown_requests (startup fs) = 0"
  "ros_error (startup fs) = 0"
  "files (startup fs) = fs"
  by (simp_all add: startup_def)

lemma logger0_fields [simp]:
  "data_count (logger0 k) = 0"
  "data_num_max (logger0 k) = k"
  "output_data_yaml (logger0 k) = []"
  by (simp_all add: logger0_def unit_arm_def)

lemma sample00_position [simp]: "position sample00 = [0, 0]"
  by (simp add: sample00_def)

lemma received_count_Inr [simp]: "received_count (Inr (s, w)) = Some (data_count s)"
  by (simp add: received_count_def)

lemma shutdowns_issued_Inr [simp]: "shutdowns_issued (Inr (s, w)) = Some (shutdown_requests w)"
  by (simp add: shutdowns_issued_def)

section \<open>The counter\<close>

text \<open>
  C3. The counter is 0 after construction, and after exactly N well-formed samples have
  been handed to the callback, N not above the target (a C++ \<open>int\<close>, so at most
  \<open>INT_MAX\<close>), the run has not faulted and the counter equals N.
\<close>

theorem received_count_equals_delivered:
  assumes "well_formed ms"
    and "int (length ms) \<le> data_point_count n"
    and "data_point_count n \<le> INT_MAX"
  shows "data_count (construct n pp dh ua ub) = 0
       \<and> received_count (deliver fmt ms (construct n pp dh ua ub, w)) = Some (int (length ms))"
proof -
  let ?s = "construct n pp dh ua ub"
  from assms have "data_count ?s + int (length ms) \<le> INT_MAX" by simp
  from deliver_run [OF assms(1) this, of fmt w] show ?thesis by auto
qed

theorem received_count_equals_delivered_witness:
  "received_count (deliver fmt01 [(True, sample00), (False, sample00)]
      (logger0 3, startup Map.empty)) = Some 2"
  using received_count_equals_delivered
    [where ms = "[(True, sample00), (False, sample00)]" and n = "unit_arm 3" and fmt = fmt01
       and pp = "''/pkg''" and dh = "''01_01_2024_00:00:00''" and ua = 0 and ub = 0
       and w = "startup Map.empty"]
  by (simp add: logger0_def unit_arm_def INT_MAX_def)

section \<open>The shutdown request\<close>

text \<open>
  C5. With a target of at least 1, a call of the callback requests shutdown exactly when
  the counter it has just incremented equals the target. Hence over the first
  target-many samples, delivered in order, the request is issued exactly once, by the
  last of them: a shorter run has issued none.
\<close>

theorem shutdown_exactly_once:
  assumes "1 \<le> data_point_count n"
    and "data_point_count n \<le> INT_MAX"
    and "well_formed ms"
    and "int (length ms) \<le> data_point_count n"
    and "2 \<le> length (position msg)"
    and "data_count s \<noteq> INT_MAX"
  shows "shutdowns_issued (deliver fmt ms (construct n pp dh ua ub, startup fs))
           = Some (if int (length ms) = data_point_count n then 1 else 0)
       \<and> shutdowns_issued (jointStatesCallback fmt ok msg (s, w))
           = Some (shutdown_requests w + (if data_count s + 1 = data_num_max s then 1 else 0))"
proof -
  let ?s = "construct n pp dh ua ub"
  from assms have "data_count ?s + int (length ms) \<le> INT_MAX" by simp
  from deliver_run [OF assms(3) this, of fmt "startup fs"] assms(1,4)
  have "shutdowns_issued (deliver fmt ms (?s, startup fs))
          = Some (if int (length ms) = data_point_count n then 1 else 0)"
    by auto
  moreover from callback_state [OF assms(5,6), of fmt ok w]
  have "shutdowns_issued (jointStatesCallback fmt ok msg (s, w))
          = Some (shutdown_requests w + (if data_count s + 1 = data_num_max s then 1 else 0))"
    by auto
  ultimately show ?thesis by simp
qed

theorem shutdown_exactly_once_witness:
  "shutdowns_issued (deliver fmt01 [(True, sample00), (True, sample00)]
      (logger0 2, startup Map.empty)) = Some 1
   \<and> shutdowns_issued (jointStatesCallback fmt01 True sample00 (logger0 2, startup Map.empty))
      = Some 0"
  using shutdown_exactly_once
    [where n = "unit_arm 2" and ms = "[(True, sample00), (True, sample00)]"
       and msg = sample00 and s = "logger0 2" and fmt = fmt01
       and pp = "''/pkg''" and dh = "''01_01_2024_00:00:00''" and ua = 0 and ub = 0
       and fs = Map.empty and ok = True and w = "startup Map.empty"]
  by (simp add: logger0_def unit_arm_def INT_MAX_def)

text \<open>
  C10. The test is an equality. With a target of zero or less, no run of well-formed
  samples that the counter can count (at most \<open>INT_MAX\<close> of them) ever requests shutdown,
  and every sample of the run is processed and counted.
\<close>

theorem nonpositive_target_never_shuts_down:
  assumes "data_point_count n \<le> 0"
    and "well_formed ms"
    and "int (length ms) \<le> INT_MAX"
  shows "shutdowns_issued (deliver fmt ms (construct n pp dh ua ub, startup fs)) = Some 0
       \<and> received_count (deliver fmt ms (construct n pp dh ua ub, startup fs))
           = Some (int (length ms))"
proof -
  let ?s = "construct n pp dh ua ub"
  from assms have "data_count ?s + int (length ms) \<le> INT_MAX" by simp
  from deliver_run [OF assms(2) this, of fmt "startup fs"] assms(1)
  show ?thesis by auto
qed

theorem nonpositive_target_never_shuts_down_witness:
  "shutdowns_issued (deliver fmt01 [(True, sample00), (True, sample00), (True, sample00)]
      (logger0 0, startup Map.empty)) = Some 0
   \<and> received_count (deliver fmt01 [(True, sample00), (True, sample00), (True, sample00)]
      (logger0 0, startup Map.empty)) = Some 3"
  using nonpositive_target_never_shuts_down
    [where n = "unit_arm 0"
       and ms = "[(True, sample00), (True, sample00), (True, sample00)]" and fmt = fmt01
       and pp = "''/pkg''" and dh = "''01_01_2024_00:00:00''" and ua = 0 and ub = 0
       and fs = Map.empty]
  by (simp add: logger0_def unit_arm_def INT_MAX_def)

text \<open>
  C2, as stated: with a target of 3, a fourth sample handed to the callback after the
  third leaves everything as it was. It does not: the counter goes on to 4.
\<close>

theorem fourth_sample_counterexample:
  "received_count (deliver fmt01 [(True, sample00), (True, sample00), (True, sample00)]
      (logger0 3, startup Map.empty)) = Some 3
   \<and> received_count (deliver fmt01
        [(True, sample00), (True, sample00), (True, sample00), (True, sample00)]
      (logger0 3, startup Map.empty)) = Some 4"
proof -
  have wf3: "well_formed [(True, sample00), (True, sample00), (True, sample00)]"
    and wf4: "well_formed [(True, sample00), (True, sample00), (True, sample00), (True, sample00)]"
    by simp_all
  from deliver_run [OF wf3, of "logger0 3" fmt01 "startup Map.empty"]
       deliver_run [OF wf4, of "logger0 3" fmt01 "startup Map.empty"]
  show ?thesis by (auto simp: INT_MAX_def)
qed

text \<open>
  C2, amended. The callback has no guard of its own. Once the counter has reached the
  target, a further well-formed sample handed to it is processed like any other: the
  positions are stored, the record is appended, the file is rewritten when it opens, and
  the counter goes one above the target. Only the shutdown request is not repeated.
  Keeping further samples away is left to the channel that honours the request.
\<close>

theorem sample_after_target_is_processed:
  assumes "data_count s = data_num_max s"
    and "data_count s \<noteq> INT_MAX"
    and "2 \<le> length (position msg)"
  shows "\<exists>s' w'. jointStatesCallback fmt ok msg (s, w) = Inr (s', w')
           \<and> position_joint1 s' = position msg ! 0
           \<and> position_joint2 s' = position msg ! 1
           \<and> data_count s' = data_num_max s + 1
           \<and> output_data_yaml s' = output_data_yaml s
                @ saveJointAnglesEepos fmt s' (eePos s (position msg ! 0) (position msg ! 1))
           \<and> files w' = (if ok then (files w)(my_output s \<mapsto> output_data_yaml s' @ [nl])
                          else files w)
           \<and> shutdown_requests w' = shutdown_requests w"
proof -
  from callback_state [OF assms(3,2), of fmt ok w] obtain w' where
    "jointStatesCallback fmt ok msg (s, w) = Inr (after_sample fmt msg s, w')"
    "shutdown_requests w' = shutdown_requests w + (if data_count s + 1 = data_num_max s then 1 else 0)"
    "files w' = (if ok then (files w)(my_output s \<mapsto> output_data_yaml (after_sample fmt msg s) @ [nl])
                 else files w)"
    by blast
  moreover have "output_data_yaml (after_sample fmt msg s) = output_data_yaml s
      @ saveJointAnglesEepos fmt (after_sample fmt msg s) (eePos s (position msg ! 0) (position msg ! 1))"
    by (simp add: after_sample_def Let_def saveJointAnglesEepos_def)
  ultimately show ?thesis using assms(1) by auto
qed

theorem sample_after_target_is_processed_witness:
  "\<exists>s' w'. jointStatesCallback fmt01 True sample00
        (logger0 0, startup Map.empty) = Inr (s', w')
      \<and> data_count s' = 1 \<and> shutdown_requests w' = 0
      \<and> files w' (my_output (logger0 0)) = Some (output_data_yaml s' @ [nl])"
  using sample_after_target_is_processed
    [where s = "logger0 0" and msg = sample00 and fmt = fmt01 and ok = True
       and w = "startup Map.empty"]
  by (auto simp: INT_MAX_def)

section \<open>The output file cannot be opened\<close>

text \<open>
  C6. When the output file cannot be opened for a well-formed sample, the callback reports
  one error and returns normally: the record is appended to the accumulated text, the
  counter is incremented, the shutdown test is evaluated as always (a request exactly
  when the new count equals the target), and no file is touched.
\<close>

theorem unopenable_file_is_not_fatal:
  assumes "2 \<le> length (position msg)"
    and "data_count s \<noteq> INT_MAX"
  shows "\<exists>s' w'. jointStatesCallback fmt False msg (s, w) = Inr (s', w')
           \<and> ros_error w' = ros_error w + 1
           \<and> output_data_yaml s' = output_data_yaml s
                @ saveJointAnglesEepos fmt s' (eePos s (position msg ! 0) (position msg ! 1))
           \<and> data_count s' = data_count s + 1
           \<and> shutdown_requests w' =
               shutdown_requests w + (if data_count s' = data_num_max s then 1 else 0)
           \<and> files w' = files w"
proof -
  from callback_state [OF assms, of fmt False w] obtain w' where
    "jointStatesCallback fmt False msg (s, w) = Inr (after_sample fmt msg s, w')"
    "ros_error w' = ros_error w + 1"
    "shutdown_requests w' = shutdown_requests w + (if data_count s + 1 = data_num_max s then 1 else 0)"
    "files w' = files w"
    by auto
  moreover have "output_data_yaml (after_sample fmt msg s) = output_data_yaml s
      @ saveJointAnglesEepos fmt (after_sample fmt msg s) (eePos s (position msg ! 0) (position msg ! 1))"
    by (simp add: after_sample_def Let_def saveJointAnglesEepos_def)
  ultimately show ?thesis by auto
qed

theorem unopenable_file_is_not_fatal_witness:
  "\<exists>s' w'. jointStatesCallback fmt01 False sample00 (logger0 1, startup Map.empty) = Inr (s', w')
      \<and> ros_error w' = 1 \<and> data_count s' = 1 \<and> shutdown_requests w' = 1
      \<and> files w' = Map.empty"
  using unopenable_file_is_not_fatal
    [where msg = sample00 and s = "logger0 1" and fmt = fmt01 and w = "startup Map.empty"]
  by (auto simp: INT_MAX_def)

section \<open>Messages with fewer than two positions\<close>

text \<open>
  C8, as stated: a message with fewer than two positions is rejected, the state is kept
  and nothing is read out of bounds. It is not: the callback reads \<open>position[0]\<close> and
  \<open>position[1]\<close> whatever the length. With one position, and with none, the call does
  not return the unchanged state but reads past the end of the vector.
\<close>

theorem short_message_counterexample:
  "jointStatesCallback fmt01 True \<lparr>stamp = 0, name = [''joint1''], position = [0]\<rparr>
      (logger0 3, startup Map.empty) = Inl OutOfBounds
   \<and> jointStatesCallback fmt01 True \<lparr>stamp = 0, name = [], position = []\<rparr>
      (logger0 3, startup Map.empty) = Inl OutOfBounds"
  by (simp add: jointStatesCallback_def)

text \<open>
  C8, amended. The callback makes no check of the number of positions. Its reads of
  \<open>position[0]\<close> and \<open>position[1]\<close> are out of bounds exactly for the messages with fewer
  than two positions; messages with two positions, as the publisher sends them, are read
  in bounds.
\<close>

theorem out_of_bounds_iff_short_message:
  "jointStatesCallback fmt ok msg (s, w) = Inl OutOfBounds \<longleftrightarrow> length (position msg) < 2"
  by (auto simp: jointStatesCallback_def Let_def)

theorem out_of_bounds_iff_short_message_witness:
  "jointStatesCallback fmt01 True sample00 (logger0 3, startup Map.empty) \<noteq> Inl OutOfBounds
   \<and> jointStatesCallback fmt01 True \<lparr>stamp = 0, name = [''joint1''], position = [1]\<rparr>
        (logger0 3, startup Map.empty) = Inl OutOfBounds"
  using out_of_bounds_iff_short_message
      [where fmt = fmt01 and ok = True and msg = sample00 and s = "logger0 3"
         and w = "startup Map.empty"]
    out_of_bounds_iff_short_message
      [where fmt = fmt01 and ok = True
         and msg = "\<lparr>stamp = 0, name = [''joint1''], position = [1]\<rparr>" and s = "logger0 3"
         and w = "startup Map.empty"]
  by simp

section \<open>The generated positions\<close>

text \<open>Rounding to an integer moves a number by at most one half, keeps integers and keeps
  the order.\<close>

lemma round_even_close: "\<bar>of_int (round_even x) - x\<bar> \<le> 1 / 2"
  unfolding round_even_def Let_def by (auto; linarith)

lemma round_even_of_int [simp]: "round_even (of_int n) = n"
  by (simp add: round_even_def)

lemma round_even_power [simp]: "round_even (2 ^ n) = 2 ^ n"
  using round_even_of_int [of "2 ^ n"] by simp

lemma round_even_mono:
  assumes "x \<le> y"
  shows "round_even x \<le> round_even y"
proof (cases "x = y")
  case True
  then show ?thesis by simp
next
  case False
  with assms have lt: "x < y" by simp
  show ?thesis
  proof (rule ccontr)
    assume "\<not> round_even x \<le> round_even y"
    then have "round_even y + 1 \<le> round_even x" by simp
    then have "(of_int (round_even y) :: real) + 1 \<le> of_int (round_even x)"
      by (metis of_int_1 of_int_add of_int_le_iff)
    with round_even_close [of x] round_even_close [of y] lt show False
      by linarith
  qed
qed

lemma binade:
  assumes "0 < x"
  shows "2 powr of_int \<lfloor>log 2 x\<rfloor> \<le> x" and "x < 2 powr (of_int \<lfloor>log 2 x\<rfloor> + 1)"
  using floor_log_eq_powr_iff [of x 2 "\<lfloor>log 2 x\<rfloor>"] assms by simp_all

lemma round_to_binade:
  assumes "2 powr of_int e \<le> x" and "x < 2 powr (of_int e + 1)"
  shows "round_to p x
           = of_int (round_even (x / 2 powr (of_int e - real p + 1))) * 2 powr (of_int e - real p + 1)"
proof -
  have pos: "0 < x" using assms(1) by (smt (verit) powr_gt_zero)
  then have "\<lfloor>log 2 x\<rfloor> = e"
    using floor_log_eq_powr_iff [of x 2 e] assms by simp
  with pos show ?thesis by (simp add: round_to_def Let_def)
qed

lemma to_double_314: "to_double (157 / 50) = 7070651414971679 / 2251799813685248"
proof -
  have "to_double (157 / 50)
      = of_int (round_even ((157 / 50) / 2 powr (of_int 1 - real 53 + 1))) * 2 powr (of_int 1 - real 53 + 1)"
    unfolding to_double_def by (rule round_to_binade) simp_all
  also have "2 powr (of_int 1 - real 53 + 1) = 1 / 2 ^ 51"
    by (simp add: powr_minus_divide flip: powr_realpow)
  finally show ?thesis
    by (simp add: round_even_def Let_def)
qed


lemma to_float_314: "to_float (7070651414971679 / 2251799813685248) = 13170115 / 4194304"
proof -
  have "to_float (7070651414971679 / 2251799813685248)
      = of_int (round_even ((7070651414971679 / 2251799813685248) / 2 powr (of_int 1 - real 24 + 1)))
          * 2 powr (of_int 1 - real 24 + 1)"
    unfolding to_float_def by (rule round_to_binade) simp_all
  also have "2 powr (of_int 1 - real 24 + 1) = 1 / 2 ^ 22"
    by (simp add: powr_minus_divide flip: powr_realpow)
  finally show ?thesis
    by (simp add: round_even_def Let_def)
qed

lemma joint_pos_314: "joint_pos 314 = 13170115 / 4194304"
  by (simp add: joint_pos_def to_double_314 to_float_314)

lemma round_to_zero [simp]: "round_to p 0 = 0"
  by (simp add: round_to_def)

text \<open>A number between two neighbouring powers of two is rounded to a number between them,
  the powers included.\<close>

lemma round_to_in_binade:
  assumes "2 powr of_int e \<le> x" and "x < 2 powr (of_int e + 1)" and "1 \<le> p"
  shows "2 powr of_int e \<le> round_to p x" and "round_to p x \<le> 2 powr (of_int e + 1)"
proof -
  let ?u = "2 powr (of_int e - real p + 1)"
  have u: "0 < ?u" by simp
  have lo: "2 powr of_int e = of_int (2 ^ (p - 1)) * ?u"
  proof -
    have "of_int (2 ^ (p - 1)) * ?u = 2 powr real (p - 1) * ?u"
      by (simp add: powr_realpow)
    also have "\<dots> = 2 powr (real (p - 1) + (of_int e - real p + 1))"
      by (simp only: powr_add)
    also have "real (p - 1) + (of_int e - real p + 1) = of_int e"
      using assms(3) by (simp add: of_nat_diff)
    finally show ?thesis by simp
  qed
  have hi: "2 powr (of_int e + 1) = of_int (2 ^ p) * ?u"
  proof -
    have "of_int (2 ^ p) * ?u = 2 powr real p * ?u"
      by (simp add: powr_realpow)
    also have "\<dots> = 2 powr (real p + (of_int e - real p + 1))"
      by (simp only: powr_add)
    also have "real p + (of_int e - real p + 1) = of_int e + 1"
      by simp
    finally show ?thesis by simp
  qed
  have "of_int (2 ^ (p - 1)) \<le> x / ?u"
    using assms(1) u unfolding lo by (simp add: pos_le_divide_eq)
  from round_even_mono [OF this] have a: "2 ^ (p - 1) \<le> round_even (x / ?u)" by simp
  have "x / ?u \<le> of_int (2 ^ p)"
    using assms(2) u unfolding hi by (simp add: pos_divide_le_eq)
  from round_even_mono [OF this] have b: "round_even (x / ?u) \<le> 2 ^ p" by simp
  have r: "round_to p x = of_int (round_even (x / ?u)) * ?u"
    by (rule round_to_binade [OF assms(1,2)])
  from a have "(of_int (2 ^ (p - 1)) :: real) \<le> of_int (round_even (x / ?u))"
    by (simp only: of_int_le_iff)
  then show "2 powr of_int e \<le> round_to p x"
    unfolding r lo using u by (simp only: mult_le_cancel_right_pos)
  from b have "(of_int (round_even (x / ?u)) :: real) \<le> of_int (2 ^ p)"
    by (simp only: of_int_le_iff)
  then show "round_to p x \<le> 2 powr (of_int e + 1)"
    unfolding r hi using u by (simp only: mult_le_cancel_right_pos)
qed

lemma round_to_nonneg:
  assumes "0 \<le> x" and "1 \<le> p"
  shows "0 \<le> round_to p x"
proof (cases "x = 0")
  case True
  then show ?thesis by simp
next
  case False
  with assms have pos: "0 < x" by simp
  from round_to_in_binade(1) [OF binade [OF pos] assms(2)]
  have "2 powr of_int \<lfloor>log 2 x\<rfloor> \<le> round_to p x" .
  moreover have "(0::real) < 2 powr of_int \<lfloor>log 2 x\<rfloor>" by simp
  ultimately show ?thesis by linarith
qed

lemma round_to_mono:
  assumes "0 \<le> x" and "x \<le> y" and "1 \<le> p"
  shows "round_to p x \<le> round_to p y"
proof (cases "x = 0")
  case True
  with assms round_to_nonneg [of y p] show ?thesis by simp
next
  case False
  with assms have px: "0 < x" and py: "0 < y" by simp_all
  let ?ex = "\<lfloor>log 2 x\<rfloor>" and ?ey = "\<lfloor>log 2 y\<rfloor>"
  have "log 2 x \<le> log 2 y"
    using px assms(2) by simp
  then have le: "?ex \<le> ?ey"
    by (rule floor_mono)
  show ?thesis
  proof (cases "?ex = ?ey")
    case True
    let ?u = "2 powr (of_int ?ey - real p + 1)"
    have "x / ?u \<le> y / ?u" using assms(2) by (simp add: divide_right_mono)
    from round_even_mono [OF this]
    have "(of_int (round_even (x / ?u)) :: real) \<le> of_int (round_even (y / ?u))"
      by (simp only: of_int_le_iff)
    then have "of_int (round_even (x / ?u)) * ?u \<le> of_int (round_even (y / ?u)) * ?u"
      by (simp add: mult_right_mono)
    moreover have "round_to p x = of_int (round_even (x / ?u)) * ?u"
      using round_to_binade [OF binade [OF px], of p] True by simp
    moreover have "round_to p y = of_int (round_even (y / ?u)) * ?u"
      using round_to_binade [OF binade [OF py], of p] by simp
    ultimately show ?thesis by simp
  next
    case False
    with le have "?ex + 1 \<le> ?ey" by simp
    then have "(of_int ?ex :: real) + 1 \<le> of_int ?ey"
      by (metis of_int_1 of_int_add of_int_le_iff)
    then have "(2::real) powr (of_int ?ex + 1) \<le> 2 powr of_int ?ey"
      by simp
    with round_to_in_binade(2) [OF binade [OF px] assms(3)]
         round_to_in_binade(1) [OF binade [OF py] assms(3)]
    show ?thesis by linarith
  qed
qed

lemma round_to_close:
  assumes "0 \<le> x" and "x < 4"
  shows "\<bar>round_to p x - x\<bar> \<le> 2 powr (1 - real p)"
proof (cases "x = 0")
  case True
  then show ?thesis by simp
next
  case False
  with assms have pos: "0 < x" by simp
  let ?e = "\<lfloor>log 2 x\<rfloor>"
  let ?u = "2 powr (of_int ?e - real p + 1)"
  have u: "0 < ?u" by simp
  have "2 powr of_int ?e < (4::real)"
    using binade(1) [OF pos] assms(2) by linarith
  moreover have "(4::real) = 2 powr 2" by simp
  ultimately have h: "2 powr of_int ?e < (2::real) powr 2" by (simp only:)
  have "(of_int ?e :: real) < 2"
    by (rule powr_less_cancel [OF h]) simp
  then have "?e \<le> 1" by linarith
  then have e1: "(of_int ?e :: real) \<le> 1" by simp
  have r: "round_to p x = of_int (round_even (x / ?u)) * ?u"
    by (rule round_to_binade [OF binade [OF pos]])
  have "round_to p x - x = (of_int (round_even (x / ?u)) - x / ?u) * ?u"
    unfolding r using u by (simp add: left_diff_distrib)
  then have "\<bar>round_to p x - x\<bar> = \<bar>of_int (round_even (x / ?u)) - x / ?u\<bar> * \<bar>?u\<bar>"
    by (simp only: abs_mult)
  also have "\<bar>?u\<bar> = ?u" by simp
  also have "\<bar>of_int (round_even (x / ?u)) - x / ?u\<bar> * ?u \<le> (1 / 2) * ?u"
    using round_even_close [of "x / ?u"] u by (simp only: mult_le_cancel_right_pos)
  also have "(1 / 2) * ?u = 2 powr (of_int ?e - real p)"
  proof -
    have "2 powr (of_int ?e - real p + 1) = 2 powr (of_int ?e - real p) * 2 powr 1"
      by (simp only: powr_add)
    then show ?thesis by simp
  qed
  also have "\<dots> \<le> 2 powr (1 - real p)"
    using e1 by simp
  finally show ?thesis .
qed

lemma joint_pos_nonneg: "0 \<le> joint_pos r"
  unfolding joint_pos_def to_float_def to_double_def
  by (intro round_to_nonneg) simp_all

lemma hundredths_le: "real (r mod 315) / 100 \<le> 157 / 50"
proof -
  have "r mod 315 < 315" by simp
  then have "r mod 315 \<le> 314" by linarith
  then have "real (r mod 315) \<le> 314" by (metis of_nat_le_iff of_nat_numeral)
  then show ?thesis by simp
qed

lemma to_double_hundredths_le:
  "to_double (real (r mod 315) / 100) \<le> 7070651414971679 / 2251799813685248"
proof -
  have "round_to 53 (real (r mod 315) / 100) \<le> round_to 53 (157 / 50)"
    by (rule round_to_mono [OF _ hundredths_le]) simp_all
  then show ?thesis by (simp only: to_double_def [symmetric] to_double_314)
qed

lemma joint_pos_le: "joint_pos r \<le> 13170115 / 4194304"
proof -
  have "0 \<le> to_double (real (r mod 315) / 100)"
    unfolding to_double_def by (intro round_to_nonneg) simp_all
  then have "round_to 24 (to_double (real (r mod 315) / 100))
      \<le> round_to 24 (7070651414971679 / 2251799813685248)"
    by (rule round_to_mono [OF _ to_double_hundredths_le]) simp
  then have "to_float (to_double (real (r mod 315) / 100)) \<le> 13170115 / 4194304"
    by (simp only: to_float_def [symmetric] to_float_314)
  then show ?thesis by (simp add: joint_pos_def)
qed

lemma joint_pos_close: "\<bar>joint_pos r - real (r mod 315) / 100\<bar> \<le> 1 / 2 ^ 22"
proof -
  let ?x = "real (r mod 315) / 100"
  let ?d = "to_double ?x"
  have x: "0 \<le> ?x" "?x < 4" using hundredths_le [of r] by simp_all
  have d: "0 \<le> ?d" "?d < 4"
    using to_double_hundredths_le [of r] round_to_nonneg [of ?x 53]
    by (simp_all add: to_double_def)
  have "\<bar>?d - ?x\<bar> \<le> 2 powr (1 - real 53)"
    unfolding to_double_def by (rule round_to_close [OF x])
  moreover have "(2::real) powr (1 - real 53) = 1 / 2 ^ 52"
    by (simp add: powr_minus_divide flip: powr_realpow)
  moreover have "\<bar>to_float ?d - ?d\<bar> \<le> 2 powr (1 - real 24)"
    unfolding to_float_def by (rule round_to_close [OF d])
  moreover have "(2::real) powr (1 - real 24) = 1 / 2 ^ 23"
    by (simp add: powr_minus_divide flip: powr_realpow)
  ultimately have "\<bar>to_float ?d - ?x\<bar> \<le> 1 / 2 ^ 23 + 1 / 2 ^ 52"
    by linarith
  then show ?thesis by (simp add: joint_pos_def)
qed

text \<open>
  C7, as stated: every generated position lies between 0.00 and 3.14 and is an integer
  multiple of 0.01. It does not: when \<open>rand() % 315\<close> is 314, the quotient 3.14 is rounded
  to \<open>double\<close> and narrowed to \<open>float\<close>, and the position published is
  \<open>13170115 / 4194304\<close>, about 3.1400001049, which is above 3.14 and is no integer
  multiple of 0.01.
\<close>

theorem generated_position_counterexample:
  "position (main_tick 0 314 314) ! 0 = 13170115 / 4194304
   \<and> \<not> position (main_tick 0 314 314) ! 0 \<le> 3.14
   \<and> \<not> (\<exists>k :: int. position (main_tick 0 314 314) ! 0 = of_int k * 0.01)"
proof -
  have v: "position (main_tick 0 314 314) ! 0 = 13170115 / 4194304"
    by (simp add: main_tick_def Let_def joint_pos_314)
  have nle: "\<not> (13170115 / 4194304 :: real) \<le> 3.14" by simp
  have nm: "\<not> (\<exists>k :: int. (13170115 / 4194304 :: real) = of_int k * 0.01)"
  proof
    assume "\<exists>k :: int. (13170115 / 4194304 :: real) = of_int k * 0.01"
    then obtain k :: int where "(13170115 / 4194304 :: real) = of_int k * 0.01" ..
    then have "(314 :: real) < of_int k" "(of_int k :: real) < 315" by simp_all
    then have "314 < k" "k < 315" by linarith+
    then show False by simp
  qed
  show ?thesis unfolding v using nle nm by (intro conjI refl)
qed

text \<open>
  C7, amended. Each message of the publisher carries exactly two positions, each from its
  own draw of \<open>rand()\<close>. With \<open>k = rand() % 315\<close>, an integer from 0 up to, not including,
  315, the position is the quotient \<open>k / 100\<close> rounded to \<open>double\<close> and then to \<open>float\<close>.
  It lies between 0 and \<open>13170115 / 4194304\<close> (about 3.1400001049, below 3.15), and
  differs from \<open>k / 100\<close> by no more than 2 to the power -22.
\<close>

theorem generated_positions_rounded:
  "length (position (main_tick now r1 r2)) = 2
   \<and> position (main_tick now r1 r2) ! 0 = to_float (to_double (real (r1 mod 315) / 100))
   \<and> position (main_tick now r1 r2) ! 1 = to_float (to_double (real (r2 mod 315) / 100))
   \<and> r1 mod 315 < 315 \<and> r2 mod 315 < 315
   \<and> 0 \<le> position (main_tick now r1 r2) ! 0
   \<and> position (main_tick now r1 r2) ! 0 \<le> 13170115 / 4194304
   \<and> \<bar>position (main_tick now r1 r2) ! 0 - real (r1 mod 315) / 100\<bar> \<le> 1 / 2 ^ 22
   \<and> 0 \<le> position (main_tick now r1 r2) ! 1
   \<and> position (main_tick now r1 r2) ! 1 \<le> 13170115 / 4194304
   \<and> \<bar>position (main_tick now r1 r2) ! 1 - real (r2 mod 315) / 100\<bar> \<le> 1 / 2 ^ 22"
proof -
  have p: "position (main_tick now r1 r2) = [joint_pos r1, joint_pos r2]"
    by (simp add: main_tick_def Let_def)
  have j: "joint_pos r = to_float (to_double (real (r mod 315) / 100))" for r
    by (simp add: joint_pos_def)
  show ?thesis
    unfolding p
    using joint_pos_nonneg [of r1] joint_pos_nonneg [of r2]
      joint_pos_le [of r1] joint_pos_le [of r2]
      joint_pos_close [of r1] joint_pos_close [of r2]
    by (simp add: j)
qed

section \<open>Forward kinematics\<close>

text \<open>
  C1. For a well-formed sample, with \<open>theta1' = positions[0] - theta1_offset * pi / 180\<close>
  and \<open>theta2' = positions[1] - theta2_offset * pi / 180\<close>, the callback computes, through
  \<open>eePos\<close>, the point \<open>x = link_1 * cos (theta1' * pi / 180) + link_2 * cos ((theta1' +
  theta2') * pi / 180)\<close>, and \<open>y\<close> likewise with \<open>sin\<close>: the angles, already corrected by
  the offsets, are multiplied by \<open>pi / 180\<close> once more before the trigonometric call. That
  point, with the positions as received, is the record appended to the accumulated text.
\<close>

theorem on_sample_forward_kinematics:
  assumes "2 \<le> length (position msg)"
    and "data_count s \<noteq> INT_MAX"
    and "theta1' = position msg ! 0 - theta1_offset s * pi / 180"
    and "theta2' = position msg ! 1 - theta2_offset s * pi / 180"
    and "x = link_1 s * cos (theta1' * pi / 180) + link_2 s * cos ((theta1' + theta2') * pi / 180)"
    and "y = link_1 s * sin (theta1' * pi / 180) + link_2 s * sin ((theta1' + theta2') * pi / 180)"
  shows "eePos s (position msg ! 0) (position msg ! 1) = (x, y)
       \<and> (\<exists>s' w'. jointStatesCallback fmt ok msg (s, w) = Inr (s', w')
             \<and> position_joint1 s' = position msg ! 0
             \<and> position_joint2 s' = position msg ! 1
             \<and> output_data_yaml s' = output_data_yaml s @ saveJointAnglesEepos fmt s' (x, y))"
proof -
  have ee: "eePos s (position msg ! 0) (position msg ! 1) = (x, y)"
    using assms(3-6) by (simp add: eePos_def Let_def)
  from callback_state [OF assms(1,2), of fmt ok w] obtain w' where
    "jointStatesCallback fmt ok msg (s, w) = Inr (after_sample fmt msg s, w')"
    by blast
  moreover have "output_data_yaml (after_sample fmt msg s) = output_data_yaml s
      @ saveJointAnglesEepos fmt (after_sample fmt msg s) (x, y)"
    using ee by (simp add: after_sample_def Let_def saveJointAnglesEepos_def)
  ultimately show ?thesis using ee by auto
qed

theorem on_sample_forward_kinematics_witness:
  "eePos (logger0 3) 0 0 = (2, 0)
   \<and> (\<exists>s' w'. jointStatesCallback fmt01 True sample00 (logger0 3, startup Map.empty) = Inr (s', w')
         \<and> output_data_yaml s' = saveJointAnglesEepos fmt01 s' (2, 0))"
  using on_sample_forward_kinematics
    [where msg = sample00 and s = "logger0 3" and theta1' = 0 and theta2' = 0
       and x = 2 and y = 0 and fmt = fmt01 and ok = True and w = "startup Map.empty"]
  by (simp add: INT_MAX_def logger0_def unit_arm_def construct_def) blast

section \<open>Serialization\<close>

text \<open>
  C9. The text of a record depends on nothing but the two stored joint positions and the
  end-effector position: two logger states that agree on the joint positions, whatever
  else they hold, serialize the same end-effector position to the same characters.
\<close>

theorem serialization_deterministic:
  assumes "position_joint1 s = position_joint1 t"
    and "position_joint2 s = position_joint2 t"
  shows "saveJointAnglesEepos fmt s ee = saveJointAnglesEepos fmt t ee"
  using assms by (simp add: saveJointAnglesEepos_def)

theorem serialization_deterministic_witness:
  "saveJointAnglesEepos fmt01 (logger0 3) (2, 0) = saveJointAnglesEepos fmt01 (logger0 7) (2, 0)"
  using serialization_deterministic [where s = "logger0 3" and t = "logger0 7" and fmt = fmt01
      and ee = "(2, 0)"]
  by (simp add: logger0_def construct_def)

section \<open>The output file\<close>

lemma split_at_append:
  "d \<notin> set a \<Longrightarrow> split_at d (a @ d # t) = a # split_at d t"
  by (induction a) auto

lemma split_at_none:
  "d \<notin> set a \<Longrightarrow> split_at d a = [a]"
  by (induction a) auto

lemma strip_prefix_append [simp]: "strip_prefix p (p @ s) = Some s"
  by (induction p) auto

lemma number_char_not_special:
  "number_char c \<Longrightarrow> c \<noteq> nl \<and> c \<noteq> CHR '','' \<and> c \<noteq> CHR '':'' \<and> c \<noteq> CHR '']'' \<and> c \<noteq> CHR '' ''"
  by (auto simp: number_char_def nl_def)

lemma numeric_set:
  assumes "numeric a"
  shows "a \<noteq> []" "nl \<notin> set a" "CHR '','' \<notin> set a" "CHR '':'' \<notin> set a"
  using assms number_char_not_special
  by (auto simp: numeric_def list_all_iff)

lemma parse_flow_seq_two:
  assumes "numeric a" "numeric b"
  shows "parse_flow_seq (''['' @ a @ '', '' @ b @ '']'') = Some [a, b]"
proof -
  have "split_at CHR '','' (a @ CHR '','' # (CHR '' '' # b)) = [a, CHR '' '' # b]"
    using numeric_set(3) [OF assms(1)] numeric_set(3) [OF assms(2)]
    by (simp add: split_at_append split_at_none)
  moreover have "butlast (a @ CHR '','' # CHR '' '' # b @ '']'') = a @ CHR '','' # CHR '' '' # b"
    by (simp add: butlast_append)
  ultimately show ?thesis
    using assms by (simp add: parse_flow_seq_def)
qed


lemma parse_pair_key:
  assumes "CHR '':'' \<notin> set k" "k \<noteq> []"
  shows "parse_pair (k @ '': '' @ v) = map_option (Pair k) (parse_flow_seq v)"
proof -
  have "takeWhile (\<lambda>c. c \<noteq> CHR '':'') (k @ '': '' @ v) = k"
    using assms(1) by (induction k) auto
  moreover have "dropWhile (\<lambda>c. c \<noteq> CHR '':'') (k @ '': '' @ v) = '': '' @ v"
    using assms(1) by (induction k) auto
  ultimately show ?thesis
    using assms(2) by (simp add: parse_pair_def Let_def)
qed

lemma flow_seq_no_nl:
  assumes "numeric (fmt a)" "numeric (fmt b)"
  shows "nl \<notin> set (flow_seq fmt [a, b])"
  using numeric_set(2) [OF assms(1)] numeric_set(2) [OF assms(2)]
  by (simp add: flow_seq_def nl_def)

lemma lines_no_nl:
  assumes "numeric (fmt a)" "numeric (fmt b)"
  shows "nl \<notin> set (line1 fmt a b)" "nl \<notin> set (line2 fmt a b)"
  using flow_seq_no_nl [OF assms]
  by (simp_all add: line1_def line2_def first_pair_def next_pair_def nl_def)

lemma parse_line1:
  assumes "numeric (fmt a)" "numeric (fmt b)"
  shows "line1 fmt a b \<noteq> []"
    and "\<not> continuation (line1 fmt a b)"
    and "\<exists>r. strip_prefix ''- '' (line1 fmt a b) = Some r
            \<and> parse_pair r = Some (''joint angles'', [fmt a, fmt b])"
proof -
  show "line1 fmt a b \<noteq> []" "\<not> continuation (line1 fmt a b)"
    by (simp_all add: line1_def first_pair_def continuation_def)
  have "parse_pair (''joint angles'' @ '': '' @ flow_seq fmt [a, b])
          = Some (''joint angles'', [fmt a, fmt b])"
    using parse_flow_seq_two [OF assms]
    by (subst parse_pair_key) (simp_all add: flow_seq_def)
  then show "\<exists>r. strip_prefix ''- '' (line1 fmt a b) = Some r
            \<and> parse_pair r = Some (''joint angles'', [fmt a, fmt b])"
    by (simp add: line1_def first_pair_def)
qed

lemma parse_line2:
  assumes "numeric (fmt a)" "numeric (fmt b)"
  shows "continuation (line2 fmt a b)"
    and "parse_pair (drop 2 (line2 fmt a b)) = Some (''end effector position'', [fmt a, fmt b])"
proof -
  show "continuation (line2 fmt a b)"
    by (simp add: line2_def next_pair_def continuation_def)
  have "parse_pair (''end effector position'' @ '': '' @ flow_seq fmt [a, b])
          = Some (''end effector position'', [fmt a, fmt b])"
    using parse_flow_seq_two [OF assms]
    by (subst parse_pair_key) (simp_all add: flow_seq_def)
  then show "parse_pair (drop 2 (line2 fmt a b)) = Some (''end effector position'', [fmt a, fmt b])"
    by (simp add: line2_def next_pair_def)
qed

lemma record_lines_eq:
  "record_lines fmt s m =
     [line1 fmt (position (snd m) ! 0) (position (snd m) ! 1),
      line2 fmt (fst (eePos s (position (snd m) ! 0) (position (snd m) ! 1)))
                (snd (eePos s (position (snd m) ! 0) (position (snd m) ! 1)))]"
  by (simp add: record_lines_def Let_def)

lemma record_text_lines:
  "record_text fmt s m = concat (map (\<lambda>l. l @ [nl]) (record_lines fmt s m))"
  unfolding record_lines_eq
  by (simp add: record_text_def saveJointAnglesEepos_def line1_def line2_def Let_def)

lemma record_lines_no_nl:
  assumes "\<forall>x. numeric (fmt x)"
  shows "\<forall>l \<in> set (record_lines fmt s m). nl \<notin> set l"
  unfolding record_lines_eq using lines_no_nl assms by simp

lemma split_at_lines:
  "\<forall>l \<in> set ls. d \<notin> set l \<Longrightarrow>
     split_at d (concat (map (\<lambda>l. l @ [d]) ls) @ t) = ls @ split_at d t"
  by (induction ls) (simp_all add: split_at_append)

lemma split_at_records:
  assumes "\<forall>x. numeric (fmt x)"
  shows "split_at nl (concat (map (record_text fmt s) ms) @ t)
           = concat (map (record_lines fmt s) ms) @ split_at nl t"
proof (induction ms)
  case Nil
  then show ?case by simp
next
  case (Cons m ms)
  have "split_at nl (concat (map (record_text fmt s) (m # ms)) @ t)
          = split_at nl (concat (map (\<lambda>l. l @ [nl]) (record_lines fmt s m))
              @ (concat (map (record_text fmt s) ms) @ t))"
    by (simp add: record_text_lines)
  also have "\<dots> = record_lines fmt s m @ split_at nl (concat (map (record_text fmt s) ms) @ t)"
    by (rule split_at_lines [OF record_lines_no_nl [OF assms]])
  finally show ?case using Cons.IH by simp
qed

lemma parse_entries_step:
  assumes "l1 \<noteq> []"
    and "strip_prefix ''- '' l1 = Some r"
    and "parse_pair r = Some kv1"
    and "continuation l2"
    and "parse_pair (drop 2 l2) = Some kv2"
    and "rest \<noteq> []"
    and "\<not> continuation (hd rest)"
    and "parse_entries rest = Some es"
  shows "parse_entries (l1 # l2 # rest) = Some ([kv1, kv2] # es)"
proof -
  from assms(6,7) have "takeWhile continuation rest = []" "dropWhile continuation rest = rest"
    by (cases rest; simp)+
  with assms(1-5,8) show ?thesis by simp
qed

lemma rest_head:
  assumes "\<forall>x. numeric (fmt x)"
  shows "\<not> continuation (hd (concat (map (record_lines fmt s) ms) @ [[], []]))"
proof (cases ms)
  case Nil
  then show ?thesis by (simp add: continuation_def)
next
  case (Cons m ms')
  have "\<not> continuation (line1 fmt (position (snd m) ! 0) (position (snd m) ! 1))"
    using parse_line1(2) assms by blast
  then show ?thesis
    unfolding Cons by (simp add: record_lines_eq [of fmt s m])
qed

lemma parse_entries_records:
  assumes "\<forall>x. numeric (fmt x)"
  shows "parse_entries (concat (map (record_lines fmt s) ms) @ [[], []])
           = Some (map (expected_mapping fmt s) ms)"
proof (induction ms)
  case Nil
  then show ?case by simp
next
  case (Cons m ms)
  let ?p0 = "position (snd m) ! 0" and ?p1 = "position (snd m) ! 1"
  let ?ee = "eePos s ?p0 ?p1"
  let ?rest = "concat (map (record_lines fmt s) ms) @ [[], []]"
  from assms have num: "numeric (fmt ?p0)" "numeric (fmt ?p1)"
    "numeric (fmt (fst ?ee))" "numeric (fmt (snd ?ee))" by simp_all
  from parse_line1 [OF num(1,2)] obtain r where
    l1: "line1 fmt ?p0 ?p1 \<noteq> []" "strip_prefix ''- '' (line1 fmt ?p0 ?p1) = Some r"
      "parse_pair r = Some (''joint angles'', [fmt ?p0, fmt ?p1])"
    by blast
  note l2 = parse_line2 [OF num(3,4)]
  have ne: "?rest \<noteq> []" by simp
  have "parse_entries (line1 fmt ?p0 ?p1 # line2 fmt (fst ?ee) (snd ?ee) # ?rest)
          = Some ([(''joint angles'', [fmt ?p0, fmt ?p1]),
                   (''end effector position'', [fmt (fst ?ee), fmt (snd ?ee)])]
                  # map (expected_mapping fmt s) ms)"
    by (rule parse_entries_step [OF l1 l2 ne rest_head [OF assms] Cons.IH])
  moreover have "concat (map (record_lines fmt s) (m # ms)) @ [[], []]
      = line1 fmt ?p0 ?p1 # line2 fmt (fst ?ee) (snd ?ee) # ?rest"
    by (simp add: record_lines_eq [of fmt s m])
  moreover have "expected_mapping fmt s m
      = [(''joint angles'', [fmt ?p0, fmt ?p1]),
         (''end effector position'', [fmt (fst ?ee), fmt (snd ?ee)])]"
    by (simp add: expected_mapping_def Let_def)
  ultimately show ?case by simp
qed

lemma parse_yaml_records:
  assumes "\<forall>x. numeric (fmt x)"
  shows "parse_yaml (concat (map (record_text fmt s) ms) @ [nl])
           = Some (map (expected_mapping fmt s) ms)"
proof -
  have "split_at nl [nl] = [[], []]" by simp
  with split_at_records [OF assms, of s ms "[nl]"] parse_entries_records [OF assms, of s ms]
  show ?thesis by (simp add: parse_yaml_def)
qed

lemma record_text_after_sample:
  "record_text fmt (after_sample fmt' m' s) = record_text fmt s"
  by (rule ext)
    (simp add: record_text_def after_sample_def saveJointAnglesEepos_def eePos_def Let_def)

lemma after_sample_text:
  "output_data_yaml (after_sample fmt (snd m) s) = output_data_yaml s @ record_text fmt s m"
  by (simp add: record_text_def after_sample_def saveJointAnglesEepos_def Let_def)

text \<open>
  The accumulated text after a run is the text before it followed by the records of the
  samples in order. If the file opened for the last sample of the run, the file holds the
  whole accumulated text and the line feed of \<open>std::endl\<close>.
\<close>

lemma deliver_text:
  assumes "well_formed ms" and "data_count s + int (length ms) \<le> INT_MAX"
  shows "\<exists>s' w'. deliver fmt ms (s, w) = Inr (s', w')
            \<and> output_data_yaml s' = output_data_yaml s @ concat (map (record_text fmt s) ms)
            \<and> my_output s' = my_output s
            \<and> data_count s' = data_count s + int (length ms)
            \<and> (ms \<noteq> [] \<longrightarrow> fst (last ms) \<longrightarrow>
                 files w' (my_output s) = Some (output_data_yaml s' @ [nl]))"
  using assms
proof (induction ms arbitrary: s w)
  case Nil
  then show ?case by simp
next
  case (Cons m ms)
  from Cons.prems have wf: "2 \<le> length (position (snd m))" and wfs: "well_formed ms"
    by simp_all
  from Cons.prems have no_ovf: "data_count s \<noteq> INT_MAX" by auto
  let ?s1 = "after_sample fmt (snd m) s"
  from callback_state [OF wf no_ovf, of fmt "fst m" w]
  obtain w1 where
    step: "jointStatesCallback fmt (fst m) (snd m) (s, w) = Inr (?s1, w1)"
    and fl: "files w1 = (if fst m then (files w)(my_output s \<mapsto> output_data_yaml ?s1 @ [nl])
                         else files w)"
    by blast
  from Cons.prems have "data_count ?s1 + int (length ms) \<le> INT_MAX" by simp
  from Cons.IH [OF wfs this, of w1]
  obtain s' w' where
    run: "deliver fmt ms (?s1, w1) = Inr (s', w')"
    and acc: "output_data_yaml s' = output_data_yaml ?s1 @ concat (map (record_text fmt ?s1) ms)"
    and p: "my_output s' = my_output ?s1"
    and c: "data_count s' = data_count ?s1 + int (length ms)"
    and f: "ms \<noteq> [] \<longrightarrow> fst (last ms) \<longrightarrow>
              files w' (my_output ?s1) = Some (output_data_yaml s' @ [nl])"
    by blast
  have "deliver fmt (m # ms) (s, w) = Inr (s', w')"
    using step run by simp
  moreover have "output_data_yaml s' = output_data_yaml s @ concat (map (record_text fmt s) (m # ms))"
    using acc by (simp add: after_sample_text record_text_after_sample)
  moreover have "my_output s' = my_output s" "data_count s' = data_count s + int (length (m # ms))"
    using p c by simp_all
  moreover have "fst (last (m # ms)) \<longrightarrow>
      files w' (my_output s) = Some (output_data_yaml s' @ [nl])"
  proof (cases ms)
    case Nil
    with run fl show ?thesis by auto
  next
    case (Cons m' ms')
    with f show ?thesis by simp
  qed
  ultimately show ?case by blast
qed

text \<open>
  C4. Take any run of well-formed samples from construction, the formatter printing every
  number as a numeric word, and the file opening for the last sample of the run, so that
  the run ends with a successful write. Then the file holds a text that reads back as one
  sequence of mappings, one for each sample handed over so far, in order, as many as the
  counter says; each mapping has the key \<open>joint angles\<close> with the two positions received
  and the key \<open>end effector position\<close> with the two coordinates computed, both as
  two-element flow sequences of numbers. Samples for which the file did not open are in
  the file all the same, since the whole accumulated text is written each time.
\<close>

theorem file_reads_back_after_write:
  assumes "\<forall>x. numeric (fmt x)"
    and "well_formed ms"
    and "int (length ms) \<le> INT_MAX"
    and "ms \<noteq> []"
    and "fst (last ms)"
  shows "\<exists>s w txt. deliver fmt ms (construct n pp dh ua ub, startup fs) = Inr (s, w)
           \<and> files w (my_output s) = Some txt
           \<and> parse_yaml txt = Some (map (expected_mapping fmt (construct n pp dh ua ub)) ms)
           \<and> int (length (map (expected_mapping fmt (construct n pp dh ua ub)) ms)) = data_count s"
proof -
  let ?s = "construct n pp dh ua ub"
  from assms(3) have "data_count ?s + int (length ms) \<le> INT_MAX" by simp
  from deliver_text [OF assms(2) this, of fmt "startup fs"] assms(4,5)
  obtain s' w' where
    run: "deliver fmt ms (?s, startup fs) = Inr (s', w')"
    and acc: "output_data_yaml s' = concat (map (record_text fmt ?s) ms)"
    and p: "my_output s' = my_output ?s"
    and c: "data_count s' = int (length ms)"
    and f: "files w' (my_output ?s) = Some (output_data_yaml s' @ [nl])"
    by auto
  have "parse_yaml (output_data_yaml s' @ [nl]) = Some (map (expected_mapping fmt ?s) ms)"
    unfolding acc by (rule parse_yaml_records [OF assms(1)])
  with run p c f show ?thesis by simp
qed

theorem file_reads_back_after_write_witness:
  "\<exists>s w txt. deliver fmt01 [(False, sample00), (True, sample00)]
        (logger0 3, startup Map.empty) = Inr (s, w)
      \<and> files w (my_output s) = Some txt
      \<and> parse_yaml txt =
          Some [[(''joint angles'', [''0'', ''0'']), (''end effector position'', [''1'', ''0''])],
                [(''joint angles'', [''0'', ''0'']), (''end effector position'', [''1'', ''0''])]]
      \<and> data_count s = 2"
proof -
  have num: "\<forall>x. numeric (fmt01 x)"
    by (simp add: fmt01_def numeric_def number_char_def)
  have ee: "eePos (logger0 3) 0 0 = (2, 0)"
    by (simp add: eePos_def logger0_def unit_arm_def construct_def)
  have "expected_mapping fmt01 (logger0 3) (b, sample00)
      = [(''joint angles'', [''0'', ''0'']), (''end effector position'', [''1'', ''0''])]" for b
    by (simp add: expected_mapping_def ee fmt01_def)
  with file_reads_back_after_write
    [where fmt = fmt01 and ms = "[(False, sample00), (True, sample00)]" and n = "unit_arm 3"
       and pp = "''/pkg''" and dh = "''01_01_2024_00:00:00''" and ua = 0 and ub = 0
       and fs = Map.empty, OF num]
  show ?thesis by (simp add: INT_MAX_def logger0_def)
qed

end
